theory Spec2Isabelle
  imports Main
begin

section \<open>JavaScript values and strings\<close>

text \<open>
  The like scripts (\<^verbatim>\<open>likes.js\<close>, \<^verbatim>\<open>liked-posts.js\<close>) are embedded as functions on an
  explicit page state. Strings are byte strings (UTF-8); numbers are integers, exact
  below \<open>2^53\<close>, which is where identifiers of posts and users live. \<^verbatim>\<open>NaN\<close> is
  \<open>None\<close> in the result of \<open>parseInt\<close>, \<^verbatim>\<open>null\<close> is \<open>None\<close> in a viewer identity.
\<close>

datatype json =
    JNull
  | JBool bool
  | JNum int
  | JStr string
  | JArr "json list"
  | JObj "(string \<times> json) list"

text \<open>A value read from a property: \<open>None\<close> is \<^verbatim>\<open>undefined\<close>.\<close>

type_synonym jsval = "json option"

fun truthy :: "jsval \<Rightarrow> bool" where
  "truthy None = False"
| "truthy (Some JNull) = False"
| "truthy (Some (JBool b)) = b"
| "truthy (Some (JNum n)) = (n \<noteq> 0)"
| "truthy (Some (JStr s)) = (s \<noteq> [])"
| "truthy (Some (JArr xs)) = True"
| "truthy (Some (JObj kvs)) = True"

text \<open>\<^verbatim>\<open>!userId\<close> for an identity that is \<^verbatim>\<open>null\<close> or a number.\<close>

fun truthy_id :: "int option \<Rightarrow> bool" where
  "truthy_id None = False"
| "truthy_id (Some n) = (n \<noteq> 0)"

datatype exn = NetworkFailure | BodyFailure | SyntaxFailure | TypeFailure | ToggleFailed

text \<open>White space is the ASCII white space; the white space of JavaScript beyond ASCII is
  not modelled.\<close>

definition is_space :: "char \<Rightarrow> bool" where
  "is_space c = (c \<in> set [CHR '' '', CHR 0x09, CHR 0x0A, CHR 0x0B, CHR 0x0C, CHR 0x0D])"

definition trim :: "string \<Rightarrow> string" where
  "trim s = rev (dropWhile is_space (rev (dropWhile is_space s)))"

text \<open>The value of a character as a digit of radix \<open>R\<close>, as \<^verbatim>\<open>parseInt\<close> reads it.\<close>

definition digit_of :: "nat \<Rightarrow> char \<Rightarrow> nat option" where
  "digit_of R c =
     (let n = (of_char c :: nat);
          v = (if 48 \<le> n \<and> n \<le> 57 then Some (n - 48)
               else if 97 \<le> n \<and> n \<le> 122 then Some (n - 87)
               else if 65 \<le> n \<and> n \<le> 90 then Some (n - 55)
               else None)
      in case v of None \<Rightarrow> None | Some d \<Rightarrow> if d < R then Some d else None)"

definition strip_sign :: "string \<Rightarrow> int \<times> string" where
  "strip_sign s =
     (case s of
        [] \<Rightarrow> (1, [])
      | c # r \<Rightarrow> if c = CHR ''-'' then (- 1, r) else if c = CHR ''+'' then (1, r) else (1, s))"

definition strip_radix :: "string \<Rightarrow> nat \<times> string" where
  "strip_radix s =
     (if take 2 s = ''0x'' \<or> take 2 s = ''0X'' then (16, drop 2 s) else (10, s))"

text \<open>
  \<^verbatim>\<open>parseInt(string)\<close> with no radix: leading white space is skipped, a sign is read,
  a \<^verbatim>\<open>0x\<close> prefix selects radix 16, the longest prefix of digits is the value, and no
  digit at all is \<^verbatim>\<open>NaN\<close>.
\<close>

definition parseInt :: "string \<Rightarrow> int option" where
  "parseInt s =
     (let (sign, s1) = strip_sign (dropWhile is_space s);
          (R, s2) = strip_radix s1;
          Z = takeWhile (\<lambda>c. digit_of R c \<noteq> None) s2
      in if Z = [] then None
         else Some (sign * int (foldl (\<lambda>a c. a * R + the (digit_of R c)) 0 Z)))"

text \<open>Decimal text of a number, as a template literal prints it.\<close>

function show_nat :: "nat \<Rightarrow> string" where
  "show_nat n =
     (if n < 10 then [''0123456789'' ! n]
      else show_nat (n div 10) @ [''0123456789'' ! (n mod 10)])"
  by pat_completeness auto
termination
  by (relation "measure (\<lambda>n. n)") auto

definition show_int :: "int \<Rightarrow> string" where
  "show_int i = (if i < 0 then CHR ''-'' # show_nat (nat (- i)) else show_nat (nat i))"

section \<open>The document\<close>

text \<open>
  An element carries an identity \<open>nid\<close>, the object that a handler holds a reference to,
  its tag, class list, attributes, the \<^verbatim>\<open>disabled\<close> property and the inline style
  properties the scripts write. A document is the forest of its top-level nodes, and the
  identities of its elements are meant to be distinct: \<open>get_elem\<close> reads the element of a
  reference and \<open>modify\<close> writes it. A reference to an element that has left the document
  reads as absent and a write through it is lost, since nothing the scripts do later brings
  the element back. An element that a script creates takes its identity from the counter
  \<open>fresh\<close> of the page; a deep copy that is put in the place of its original keeps the
  identity of the original.
\<close>

record css =
  fill :: string
  stroke :: string
  transition :: string
  opacity :: string
  transform :: string

record props =
  nid :: nat
  tag :: string
  classes :: "string list"
  attrs :: "(string \<times> string) list"
  disabled :: bool
  style :: css

datatype node = TextNode string | Element props "node list"

text \<open>First element of a forest, in document order, that satisfies a selector.\<close>

fun find_first :: "(props \<Rightarrow> bool) \<Rightarrow> node list \<Rightarrow> node option" where
  "find_first P [] = None"
| "find_first P (TextNode t # ns) = find_first P ns"
| "find_first P (Element p cs # ns) =
     (if P p then Some (Element p cs)
      else case find_first P cs of Some n \<Rightarrow> Some n | None \<Rightarrow> find_first P ns)"

text \<open>All elements of a forest in document order.\<close>

fun elems :: "node list \<Rightarrow> node list" where
  "elems [] = []"
| "elems (TextNode t # ns) = elems ns"
| "elems (Element p cs # ns) = Element p cs # elems cs @ elems ns"

fun props_of :: "node \<Rightarrow> props option" where
  "props_of (TextNode t) = None"
| "props_of (Element p cs) = Some p"

fun children :: "node \<Rightarrow> node list" where
  "children (TextNode t) = []"
| "children (Element p cs) = cs"

definition sat :: "(props \<Rightarrow> bool) \<Rightarrow> node \<Rightarrow> bool" where
  "sat P n = (case n of TextNode t \<Rightarrow> False | Element p cs \<Rightarrow> P p)"

definition querySelectorAll :: "(props \<Rightarrow> bool) \<Rightarrow> node list \<Rightarrow> node list" where
  "querySelectorAll P d = filter (sat P) (elems d)"

text \<open>Apply \<open>f\<close> to the first element that satisfies a selector (a write through the
  reference that \<^verbatim>\<open>querySelector\<close> returned).\<close>

fun modify_first :: "(props \<Rightarrow> bool) \<Rightarrow> (node \<Rightarrow> node) \<Rightarrow> node list \<Rightarrow> node list" where
  "modify_first P f [] = []"
| "modify_first P f (TextNode t # ns) = TextNode t # modify_first P f ns"
| "modify_first P f (Element p cs # ns) =
     (if P p then f (Element p cs) # ns
      else if find_first P cs \<noteq> None then Element p (modify_first P f cs) # ns
      else Element p cs # modify_first P f ns)"

text \<open>Reads and writes through a reference \<open>i\<close>.\<close>

definition get_elem :: "nat \<Rightarrow> node list \<Rightarrow> node option" where
  "get_elem i d = find_first (\<lambda>p. nid p = i) d"

fun modify :: "nat \<Rightarrow> (node \<Rightarrow> node) \<Rightarrow> node list \<Rightarrow> node list" where
  "modify i f [] = []"
| "modify i f (TextNode t # ns) = TextNode t # modify i f ns"
| "modify i f (Element p cs # ns) =
     (if nid p = i then f (Element p cs) else Element p (modify i f cs)) # modify i f ns"

text \<open>\<^verbatim>\<open>element.remove()\<close>.\<close>

fun remove_elem :: "nat \<Rightarrow> node list \<Rightarrow> node list" where
  "remove_elem i [] = []"
| "remove_elem i (TextNode t # ns) = TextNode t # remove_elem i ns"
| "remove_elem i (Element p cs # ns) =
     (if nid p = i then remove_elem i ns else Element p (remove_elem i cs) # remove_elem i ns)"

text \<open>The element \<open>t\<close> and its ancestors, innermost first.\<close>

fun path_to :: "nat \<Rightarrow> node list \<Rightarrow> node list option" where
  "path_to t [] = None"
| "path_to t (TextNode s # ns) = path_to t ns"
| "path_to t (Element p cs # ns) =
     (if nid p = t then Some [Element p cs]
      else case path_to t cs of
             Some ps \<Rightarrow> Some (ps @ [Element p cs])
           | None \<Rightarrow> path_to t ns)"

text \<open>\<^verbatim>\<open>t.closest(selector)\<close>: the reference of the nearest inclusive ancestor that matches.\<close>

definition closest :: "(props \<Rightarrow> bool) \<Rightarrow> nat \<Rightarrow> node list \<Rightarrow> nat option" where
  "closest P t d =
     (case path_to t d of
        None \<Rightarrow> None
      | Some ps \<Rightarrow> (case find (sat P) ps of
                     Some (Element p cs) \<Rightarrow> Some (nid p)
                   | _ \<Rightarrow> None))"

definition has_class :: "string \<Rightarrow> props \<Rightarrow> bool" where
  "has_class c p = (c \<in> set (classes p))"

definition getAttribute :: "string \<Rightarrow> props \<Rightarrow> string option" where
  "getAttribute a p = map_of (attrs p) a"

definition class_add :: "string \<Rightarrow> string list \<Rightarrow> string list" where
  "class_add c cl = (if c \<in> set cl then cl else cl @ [c])"

definition class_remove :: "string \<Rightarrow> string list \<Rightarrow> string list" where
  "class_remove c cl = removeAll c cl"

fun set_disabled :: "bool \<Rightarrow> node \<Rightarrow> node" where
  "set_disabled b (TextNode t) = TextNode t"
| "set_disabled b (Element p cs) = Element (p\<lparr>disabled := b\<rparr>) cs"

fun set_children :: "node list \<Rightarrow> node \<Rightarrow> node" where
  "set_children ds (TextNode t) = TextNode t"
| "set_children ds (Element p cs) = Element p ds"

fun set_style :: "(css \<Rightarrow> css) \<Rightarrow> node \<Rightarrow> node" where
  "set_style g (TextNode t) = TextNode t"
| "set_style g (Element p cs) = Element (p\<lparr>style := g (style p)\<rparr>) cs"

text \<open>Assigning a non-empty string to \<^verbatim>\<open>textContent\<close> leaves one text node.\<close>

definition set_textContent :: "string \<Rightarrow> node \<Rightarrow> node" where
  "set_textContent t n = set_children [TextNode t] n"

fun textContent :: "node list \<Rightarrow> string" where
  "textContent [] = []"
| "textContent (TextNode t # ns) = t @ textContent ns"
| "textContent (Element p cs # ns) = textContent cs @ textContent ns"

fun is_disabled :: "node \<Rightarrow> bool" where
  "is_disabled (TextNode t) = False"
| "is_disabled (Element p cs) = disabled p"

fun ref :: "node \<Rightarrow> nat" where
  "ref (TextNode t) = 0"
| "ref (Element p cs) = nid p"

definition empty_css :: css where
  "empty_css = \<lparr>fill = [], stroke = [], transition = [], opacity = [], transform = []\<rparr>"

section \<open>Selectors and literals of the scripts\<close>

definition is_user_meta :: "props \<Rightarrow> bool" where
  "is_user_meta p = (tag p = ''meta'' \<and> getAttribute ''name'' p = Some ''user-id'')"

definition is_like_icon :: "props \<Rightarrow> bool" where
  "is_like_icon p = has_class ''like-icon'' p"

definition is_like_text :: "props \<Rightarrow> bool" where
  "is_like_text p = has_class ''like-text'' p"

definition is_like_button :: "props \<Rightarrow> bool" where
  "is_like_button p = has_class ''like-button'' p"

text \<open>The selector \<^verbatim>\<open>.like-button[data-post-id]\<close>.\<close>

definition is_post_like_button :: "props \<Rightarrow> bool" where
  "is_post_like_button p = (has_class ''like-button'' p \<and> getAttribute ''data-post-id'' p \<noteq> None)"

definition is_article_card :: "props \<Rightarrow> bool" where
  "is_article_card p = has_class ''article-card'' p"

definition is_articles_list :: "props \<Rightarrow> bool" where
  "is_articles_list p = has_class ''articles-list'' p"

text \<open>The notices and labels are Cyrillic; they are given by their UTF-8 bytes.\<close>

definition signin_notice :: string where
  "signin_notice = map char_of
     [208, 159, 208, 190, 208, 182, 208, 176, 208, 187, 209, 131, 208, 185, 209, 129, 209, 130,
      208, 176, 44, 32, 208, 178, 208, 190, 208, 185, 208, 180, 208, 184, 209, 130, 208, 181, 32,
      208, 178, 32, 209, 129, 208, 184, 209, 129, 209, 130, 208, 181, 208, 188, 209, 131, 44, 32,
      209, 135, 209, 130, 208, 190, 208, 177, 209, 139, 32, 209, 129, 209, 130, 208, 176, 208,
      178, 208, 184, 209, 130, 209, 140, 32, 208, 187, 208, 176, 208, 185, 208, 186, 208, 184 :: nat]"

definition failure_notice :: string where
  "failure_notice = map char_of
     [208, 159, 209, 128, 208, 190, 208, 184, 208, 183, 208, 190, 209, 136, 208, 187, 208, 176,
      32, 208, 190, 209, 136, 208, 184, 208, 177, 208, 186, 208, 176, 32, 208, 191, 209, 128,
      208, 184, 32, 208, 190, 208, 177, 208, 189, 208, 190, 208, 178, 208, 187, 208, 181, 208,
      189, 208, 184, 208, 184, 32, 208, 187, 208, 176, 208, 185, 208, 186, 208, 176 :: nat]"

definition liked_label :: string where
  "liked_label = map char_of
     [208, 155, 208, 176, 208, 185, 208, 186, 208, 189, 209, 131, 209, 130, 208, 190 :: nat]"

definition like_label :: string where
  "like_label = map char_of [208, 155, 208, 176, 208, 185, 208, 186 :: nat]"

text \<open>The element that the loading markup of \<open>toggleLike\<close> creates.\<close>

definition spinner :: "nat \<Rightarrow> node" where
  "spinner i =
     Element \<lparr>nid = i, tag = ''span'', classes = [''spinner-border'', ''spinner-border-sm''],
              attrs = [(''role'', ''status''), (''aria-hidden'', ''true'')],
              disabled = False, style = empty_css\<rparr> []"

section \<open>The page state\<close>

record request =
  meth :: string
  url :: string
  headers :: "(string \<times> string) list"
  body :: "json option"

text \<open>What a response body turns out to be: unreadable, not JSON, or a JSON value.\<close>

datatype body_result = Unreadable | Malformed | Json json

datatype fetch_outcome = NetworkError | Response bool body_result

record original =
  orig_icon :: "node option"
  orig_text :: "node option"

text \<open>
  A handler suspended at its \<^verbatim>\<open>await fetch\<close>, with the variables it still needs:
  \<open>toggleLike\<close> with its button and \<open>originalContent\<close>, the handler of the liked-items
  page with its button, and a status query of \<open>initializeLikes\<close> with its button.
\<close>

datatype continuation =
    ToggleCont "nat option" "original option"
  | LikedPostsCont nat nat
  | StatusCont nat

text \<open>A pending \<^verbatim>\<open>setTimeout\<close> of the liked-items page: the card, the list, the delay.\<close>

datatype timer = RemoveCard nat nat nat

record page =
  doc :: "node list"
  fresh :: nat
  requests :: "request list"
  alerts :: "string list"
  console :: "string list"
  inflight :: "continuation list"
  timers :: "timer list"
  reloads :: nat
  likes_loaded :: bool
  liked_list :: "nat option"

datatype suspension = Returned jsval | Suspended continuation

section \<open>likes.js\<close>

definition getCurrentUserId :: "node list \<Rightarrow> int option" where
  "getCurrentUserId d =
     (case find_first is_user_meta d of
        None \<Rightarrow> None
      | Some userMeta \<Rightarrow>
          (case props_of userMeta of
             None \<Rightarrow> None
           | Some p \<Rightarrow>
               (let content = (case getAttribute ''content'' p of None \<Rightarrow> [] | Some c \<Rightarrow> c)
                in if content = [] \<or> trim content = [] then None
                   else parseInt content)))"

definition status_request :: "int \<Rightarrow> int \<Rightarrow> request" where
  "status_request userId postId =
     \<lparr>meth = ''GET'',
      url = ''/api/likes/user/'' @ show_int userId @ ''/post/'' @ show_int postId,
      headers = [], body = None\<rparr>"

text \<open>The \<^verbatim>\<open>try\<close> block of \<open>isLiked\<close> from the point where \<^verbatim>\<open>fetch\<close> settles.\<close>

definition isLiked_try :: "fetch_outcome \<Rightarrow> page \<Rightarrow> (exn + json) \<times> page" where
  "isLiked_try outcome s =
     (case outcome of
        NetworkError \<Rightarrow> (Inl NetworkFailure, s)
      | Response ok b \<Rightarrow>
          if \<not> ok then
            (case b of
               Unreadable \<Rightarrow> (Inl BodyFailure, s)
             | _ \<Rightarrow> (Inr (JBool False),
                     s\<lparr>console := console s @ [''Error checking like status:'']\<rparr>))
          else
            (case b of
               Unreadable \<Rightarrow> (Inl BodyFailure, s)
             | Malformed \<Rightarrow> (Inl SyntaxFailure, s)
             | Json v \<Rightarrow> (Inr v, s)))"

definition isLiked_resume :: "fetch_outcome \<Rightarrow> page \<Rightarrow> (exn + json) \<times> page" where
  "isLiked_resume outcome s =
     (case isLiked_try outcome s of
        (Inl e, s') \<Rightarrow>
          (Inr (JBool False), s'\<lparr>console := console s' @ [''Error checking like status:'']\<rparr>)
      | (Inr v, s') \<Rightarrow> (Inr v, s'))"

definition isLiked :: "int \<Rightarrow> int option \<Rightarrow> fetch_outcome \<Rightarrow> page \<Rightarrow> (exn + json) \<times> page" where
  "isLiked postId userId outcome s =
     (if \<not> truthy_id userId then (Inr (JBool False), s)
      else isLiked_resume outcome
             (s\<lparr>requests := requests s @ [status_request (the userId) postId]\<rparr>))"

text \<open>
  \<open>updateLikeButton\<close> receives the element itself; \<open>icon\<close> and \<open>text\<close> are the first
  descendants with the classes \<^verbatim>\<open>like-icon\<close> and \<^verbatim>\<open>like-text\<close>.
\<close>

fun updateLikeButton :: "node \<Rightarrow> bool \<Rightarrow> node" where
  "updateLikeButton (TextNode t) liked = TextNode t"
| "updateLikeButton (Element p cs) liked =
     (if liked then
        Element (p\<lparr>classes := class_add ''liked'' (classes p)\<rparr>)
          (modify_first is_like_text (set_textContent liked_label)
             (modify_first is_like_icon
                (set_style (\<lambda>st. st\<lparr>fill := ''#e91e63'', stroke := ''#e91e63''\<rparr>)) cs))
      else
        Element (p\<lparr>classes := class_remove ''liked'' (classes p)\<rparr>)
          (modify_first is_like_text (set_textContent like_label)
             (modify_first is_like_icon
                (set_style (\<lambda>st. st\<lparr>fill := ''none'', stroke := []\<rparr>)) cs)))"

text \<open>\<open>originalContent\<close>: the icon and the text as they are when the button is locked.
  The copies take the place of the elements they copy, which the loading markup discards.\<close>

definition capture :: "node \<Rightarrow> original" where
  "capture n =
     \<lparr>orig_icon = find_first is_like_icon (children n),
      orig_text = find_first is_like_text (children n)\<rparr>"

text \<open>\<^verbatim>\<open>button.disabled = true\<close> and the loading markup.\<close>

definition lock_button :: "nat \<Rightarrow> node \<Rightarrow> node" where
  "lock_button i n = set_children [spinner i] (set_disabled True n)"

definition toggle_request :: "int \<Rightarrow> request" where
  "toggle_request postId =
     \<lparr>meth = ''POST'', url = ''/api/likes/toggle'',
      headers = [(''Content-Type'', ''application/json'')],
      body = Some (JObj [(''post_id'', JNum postId), (''liked'', JBool True)])\<rparr>"

text \<open>\<open>toggleLike\<close> up to its \<^verbatim>\<open>await fetch\<close>.\<close>

definition toggleLike_begin ::
  "int \<Rightarrow> int option \<Rightarrow> nat option \<Rightarrow> page \<Rightarrow> suspension \<times> page" where
  "toggleLike_begin postId userId button s =
     (if \<not> truthy_id userId then
        (Returned (Some (JBool False)), s\<lparr>alerts := alerts s @ [signin_notice]\<rparr>)
      else
        (let (originalContent, s1) =
               (case button of
                  None \<Rightarrow> (None, s)
                | Some b \<Rightarrow>
                    (case get_elem b (doc s) of
                       None \<Rightarrow> (Some \<lparr>orig_icon = None, orig_text = None\<rparr>, s)
                     | Some n \<Rightarrow>
                         (Some (capture n),
                          s\<lparr>doc := modify b (lock_button (fresh s)) (doc s),
                            fresh := Suc (fresh s)\<rparr>)))
         in (Suspended (ToggleCont button originalContent),
             s1\<lparr>requests := requests s1 @ [toggle_request postId]\<rparr>)))"

text \<open>Reading a property of a parsed body: \<^verbatim>\<open>null\<close> has none, and reading one throws.\<close>

definition field :: "string \<Rightarrow> json \<Rightarrow> exn + jsval" where
  "field k v =
     (case v of
        JNull \<Rightarrow> Inl TypeFailure
      | JObj kvs \<Rightarrow> Inr (map_of kvs k)
      | _ \<Rightarrow> Inr None)"

definition restore_children :: "original \<Rightarrow> node list" where
  "restore_children oc =
     (case orig_icon oc of None \<Rightarrow> [] | Some i \<Rightarrow> [i]) @
     (case orig_text oc of None \<Rightarrow> [] | Some t \<Rightarrow> [t])"

text \<open>The \<^verbatim>\<open>try\<close> block of \<open>toggleLike\<close> from the point where \<^verbatim>\<open>fetch\<close> settles. The
  button's content is rebuilt before \<^verbatim>\<open>result.liked\<close> is read.\<close>

definition toggleLike_try ::
  "nat option \<Rightarrow> original option \<Rightarrow> fetch_outcome \<Rightarrow> page \<Rightarrow> (exn + jsval) \<times> page" where
  "toggleLike_try button originalContent outcome s =
     (case outcome of
        NetworkError \<Rightarrow> (Inl NetworkFailure, s)
      | Response ok b \<Rightarrow>
          if \<not> ok then (Inl ToggleFailed, s)
          else
            (case b of
               Unreadable \<Rightarrow> (Inl BodyFailure, s)
             | Malformed \<Rightarrow> (Inl SyntaxFailure, s)
             | Json result \<Rightarrow>
                 (case button of
                    None \<Rightarrow>
                      (case field ''liked'' result of
                         Inl e \<Rightarrow> (Inl e, s)
                       | Inr v \<Rightarrow> (Inr v, s))
                  | Some btn \<Rightarrow>
                      (case originalContent of
                         None \<Rightarrow> (Inl TypeFailure, s\<lparr>doc := modify btn (set_children []) (doc s)\<rparr>)
                       | Some oc \<Rightarrow>
                           (let s1 = s\<lparr>doc := modify btn (set_children (restore_children oc)) (doc s)\<rparr>
                            in case field ''liked'' result of
                                 Inl e \<Rightarrow> (Inl e, s1)
                               | Inr v \<Rightarrow>
                                   (Inr v,
                                    s1\<lparr>doc := modify btn
                                                (\<lambda>n. set_disabled False (updateLikeButton n (truthy v)))
                                                (doc s1)\<rparr>))))))"

text \<open>\<^verbatim>\<open>parent.appendChild(x)\<close> on the children of \<open>parent\<close>: \<open>x\<close> leaves the place it has.\<close>

definition appendChild :: "node \<Rightarrow> node list \<Rightarrow> node list" where
  "appendChild x cs = remove_elem (ref x) cs @ [x]"

fun without :: "nat \<Rightarrow> node \<Rightarrow> node" where
  "without i (TextNode t) = TextNode t"
| "without i (Element p cs) = Element p (remove_elem i cs)"

text \<open>The button in the \<^verbatim>\<open>catch\<close> block of \<open>toggleLike\<close>: the icon and the text are looked
  for in the button as it is at that moment.\<close>

definition catch_restore :: "node \<Rightarrow> node" where
  "catch_restore button =
     (let b1 = set_disabled False button
      in case (find_first is_like_icon (children b1), find_first is_like_text (children b1)) of
           (Some i, Some t) \<Rightarrow>
              (let t' = (if ref t = ref i then i else without (ref i) t)
               in set_children (appendChild t' (appendChild i [])) b1)
         | _ \<Rightarrow> b1)"

definition toggleLike_catch :: "nat option \<Rightarrow> page \<Rightarrow> (exn + jsval) \<times> page" where
  "toggleLike_catch button s =
     (let s1 = s\<lparr>console := console s @ [''Error toggling like:''],
                 alerts := alerts s @ [failure_notice]\<rparr>
      in (Inr (Some (JBool False)),
          case button of
            None \<Rightarrow> s1
          | Some b \<Rightarrow> s1\<lparr>doc := modify b catch_restore (doc s1)\<rparr>))"

definition toggleLike_resume ::
  "nat option \<Rightarrow> original option \<Rightarrow> fetch_outcome \<Rightarrow> page \<Rightarrow> (exn + jsval) \<times> page" where
  "toggleLike_resume button originalContent outcome s =
     (case toggleLike_try button originalContent outcome s of
        (Inl e, s') \<Rightarrow> toggleLike_catch button s'
      | (Inr v, s') \<Rightarrow> (Inr v, s'))"

text \<open>\<open>toggleLike\<close> run to its end, given how its one \<^verbatim>\<open>fetch\<close> settles.\<close>

definition toggleLike ::
  "int \<Rightarrow> int option \<Rightarrow> nat option \<Rightarrow> fetch_outcome \<Rightarrow> page \<Rightarrow> (exn + jsval) \<times> page" where
  "toggleLike postId userId button outcome s =
     (case toggleLike_begin postId userId button s of
        (Returned v, s') \<Rightarrow> (Inr v, s')
      | (Suspended k, s') \<Rightarrow>
          (case k of
             ToggleCont b oc \<Rightarrow> toggleLike_resume b oc outcome s'
           | _ \<Rightarrow> (Inr None, s')))"

text \<open>\<^verbatim>\<open>parseInt(button.getAttribute('data-post-id'))\<close>; a missing attribute reads \<^verbatim>\<open>null\<close>.\<close>

definition post_id_of :: "node \<Rightarrow> int option" where
  "post_id_of n =
     (case props_of n of
        None \<Rightarrow> None
      | Some p \<Rightarrow> parseInt (case getAttribute ''data-post-id'' p of None \<Rightarrow> ''null'' | Some a \<Rightarrow> a))"

definition initializeLikes :: "page \<Rightarrow> page" where
  "initializeLikes s =
     (let userId = getCurrentUserId (doc s)
      in if \<not> truthy_id userId then
           s\<lparr>doc := foldl (\<lambda>d button. modify button (\<lambda>n. updateLikeButton n False) d) (doc s)
                      (map ref (querySelectorAll is_post_like_button (doc s)))\<rparr>
         else
           foldl (\<lambda>s' button.
                    case post_id_of button of
                      None \<Rightarrow> s'
                    | Some postId \<Rightarrow>
                        s'\<lparr>requests := requests s' @ [status_request (the userId) postId],
                           inflight := inflight s' @ [StatusCont (ref button)]\<rparr>)
                 s (querySelectorAll is_post_like_button (doc s)))"

text \<open>The click listener that \<open>setupLikeButtons\<close> puts on the document, up to the
  \<^verbatim>\<open>await\<close> inside \<open>toggleLike\<close>; \<open>t\<close> is the event target.\<close>

definition likes_click :: "nat \<Rightarrow> page \<Rightarrow> page" where
  "likes_click t s =
     (case closest is_like_button t (doc s) of
        None \<Rightarrow> s
      | Some button \<Rightarrow>
          (case get_elem button (doc s) of
             None \<Rightarrow> s
           | Some n \<Rightarrow>
               if is_disabled n then s
               else
                 (let postId = post_id_of n;
                      userId = getCurrentUserId (doc s)
                  in case postId of
                       None \<Rightarrow> s\<lparr>console := console s @ [''Invalid post ID'']\<rparr>
                     | Some pid \<Rightarrow>
                         (case toggleLike_begin pid userId (Some button) s of
                            (Returned v, s') \<Rightarrow> s'
                          | (Suspended k, s') \<Rightarrow> s'\<lparr>inflight := inflight s' @ [k]\<rparr>))))"

section \<open>liked-posts.js\<close>

definition setupLikedPostsPage :: "page \<Rightarrow> page" where
  "setupLikedPostsPage s =
     (case find_first is_articles_list (doc s) of
        None \<Rightarrow> s
      | Some likedPostsList \<Rightarrow> s\<lparr>liked_list := Some (ref likedPostsList)\<rparr>)"

text \<open>The capturing click listener on the list, up to its \<^verbatim>\<open>await fetch\<close>. The flag says
  whether \<^verbatim>\<open>stopPropagation\<close> was called.\<close>

definition liked_posts_click :: "nat \<Rightarrow> nat \<Rightarrow> page \<Rightarrow> bool \<times> page" where
  "liked_posts_click likedPostsList t s =
     (case closest is_like_button t (doc s) of
        None \<Rightarrow> (False, s)
      | Some button \<Rightarrow>
          (case get_elem button (doc s) of
             None \<Rightarrow> (True, s)
           | Some n \<Rightarrow>
               if is_disabled n then (True, s)
               else
                 (let postId = post_id_of n;
                      userId = (if likes_loaded s then getCurrentUserId (doc s) else None)
                  in if \<not> truthy_id userId \<or> postId = None then (True, s)
                     else
                       (True,
                        s\<lparr>doc := modify button (set_disabled True) (doc s),
                          requests := requests s @ [toggle_request (the postId)],
                          inflight := inflight s @ [LikedPostsCont likedPostsList button]\<rparr>))))"

definition liked_posts_catch :: "nat \<Rightarrow> page \<Rightarrow> page" where
  "liked_posts_catch button s =
     s\<lparr>console := console s @ [''Error toggling like:''],
       doc := modify button (set_disabled False) (doc s),
       alerts := alerts s @ [failure_notice]\<rparr>"

definition liked_posts_resume :: "nat \<Rightarrow> nat \<Rightarrow> fetch_outcome \<Rightarrow> page \<Rightarrow> page" where
  "liked_posts_resume likedPostsList button outcome s =
     (case outcome of
        NetworkError \<Rightarrow> liked_posts_catch button s
      | Response ok b \<Rightarrow>
          if \<not> ok then liked_posts_catch button s
          else
            (case b of
               Unreadable \<Rightarrow> liked_posts_catch button s
             | Malformed \<Rightarrow> liked_posts_catch button s
             | Json result \<Rightarrow>
                 (case field ''liked'' result of
                    Inl e \<Rightarrow> liked_posts_catch button s
                  | Inr v \<Rightarrow>
                      if \<not> truthy v then
                        (case closest is_article_card button (doc s) of
                           None \<Rightarrow> s
                         | Some crd \<Rightarrow>
                             s\<lparr>doc := modify crd
                                        (set_style (\<lambda>st. st\<lparr>transition := ''opacity 0.3s ease, transform 0.3s ease'',
                                                            opacity := ''0'',
                                                            transform := ''scale(0.95)''\<rparr>))
                                        (doc s),
                               timers := timers s @ [RemoveCard crd likedPostsList 300]\<rparr>)
                      else s\<lparr>doc := modify button (set_disabled False) (doc s)\<rparr>)))"



section \<open>Events\<close>

text \<open>
  A click on the element \<open>t\<close>, with the listeners installed. The listener of the
  liked-items page captures on the list, so it runs first when the target is inside the
  list, and the listener that \<^verbatim>\<open>likes.js\<close> puts on the document runs in the bubbling phase
  unless propagation was stopped.
\<close>

definition inside :: "nat \<Rightarrow> nat \<Rightarrow> node list \<Rightarrow> bool" where
  "inside t l d = (case path_to t d of None \<Rightarrow> False | Some ps \<Rightarrow> l \<in> set (map ref ps))"

definition document_click :: "nat \<Rightarrow> page \<Rightarrow> page" where
  "document_click t s = (if likes_loaded s then likes_click t s else s)"

definition click :: "nat \<Rightarrow> page \<Rightarrow> page" where
  "click t s =
     (case liked_list s of
        None \<Rightarrow> document_click t s
      | Some l \<Rightarrow>
          if inside t l (doc s) then
            (case liked_posts_click l t s of
               (True, s') \<Rightarrow> s'
             | (False, s') \<Rightarrow> document_click t s')
          else document_click t s)"

text \<open>The request of a suspended handler settles and the handler runs to its end. A
  rejection of \<open>toggleLike\<close> would be caught by the listener of \<^verbatim>\<open>likes.js\<close>, which logs
  it and re-enables the button; a rejection of \<open>isLiked\<close> by \<open>initializeLikes\<close>, which
  paints the button not-liked.\<close>

definition resume :: "continuation \<Rightarrow> fetch_outcome \<Rightarrow> page \<Rightarrow> page" where
  "resume k outcome s =
     (case k of
        ToggleCont button oc \<Rightarrow>
          (case toggleLike_resume button oc outcome s of
             (Inr v, s') \<Rightarrow> s'
           | (Inl e, s') \<Rightarrow>
               (case button of
                  None \<Rightarrow> s'\<lparr>console := console s' @ [''Error toggling like:'']\<rparr>
                | Some b \<Rightarrow>
                    s'\<lparr>console := console s' @ [''Error toggling like:''],
                       doc := modify b (set_disabled False) (doc s')\<rparr>))
      | LikedPostsCont l button \<Rightarrow> liked_posts_resume l button outcome s
      | StatusCont button \<Rightarrow>
          (case isLiked_resume outcome s of
             (Inr v, s') \<Rightarrow>
               s'\<lparr>doc := modify button (\<lambda>n. updateLikeButton n (truthy (Some v))) (doc s')\<rparr>
           | (Inl e, s') \<Rightarrow>
               s'\<lparr>console := console s' @ [''Error initializing like button:''],
                  doc := modify button (\<lambda>n. updateLikeButton n False) (doc s')\<rparr>))"

definition respond :: "nat \<Rightarrow> fetch_outcome \<Rightarrow> page \<Rightarrow> page" where
  "respond i outcome s =
     (if i < length (inflight s) then
        resume (inflight s ! i) outcome
          (s\<lparr>inflight := take i (inflight s) @ drop (Suc i) (inflight s)\<rparr>)
      else s)"


section \<open>What a button shows\<close>

text \<open>
  The visual state of a like button: the class \<^verbatim>\<open>liked\<close>, the fill and stroke of its
  icon, and the text of its label, where the button has an icon and a label.
\<close>

definition icon_style_is :: "string \<Rightarrow> string \<Rightarrow> node list \<Rightarrow> bool" where
  "icon_style_is a b cs =
     (case find_first is_like_icon cs of
        None \<Rightarrow> True
      | Some i \<Rightarrow>
          (case props_of i of
             None \<Rightarrow> False
           | Some ip \<Rightarrow> fill (style ip) = a \<and> stroke (style ip) = b))"

definition label_is :: "string \<Rightarrow> node list \<Rightarrow> bool" where
  "label_is l cs =
     (case find_first is_like_text cs of
        None \<Rightarrow> True
      | Some t \<Rightarrow> textContent (children t) = l)"

definition visual_state :: "bool \<Rightarrow> node \<Rightarrow> bool" where
  "visual_state v n =
     (case n of
        TextNode t \<Rightarrow> False
      | Element p cs \<Rightarrow>
          (has_class ''liked'' p = v) \<and>
          icon_style_is (if v then ''#e91e63'' else ''none'') (if v then ''#e91e63'' else []) cs \<and>
          label_is (if v then liked_label else like_label) cs)"

text \<open>Two nodes are the same element up to style, state and content.\<close>

definition same_element :: "node \<Rightarrow> node \<Rightarrow> bool" where
  "same_element a b =
     (case (props_of a, props_of b) of
        (Some p, Some q) \<Rightarrow>
          nid p = nid q \<and> tag p = tag q \<and> classes p = classes q \<and> attrs p = attrs q
      | _ \<Rightarrow> False)"

section \<open>A page to run the scripts on\<close>

definition el ::
  "nat \<Rightarrow> string \<Rightarrow> string list \<Rightarrow> (string \<times> string) list \<Rightarrow> node list \<Rightarrow> node" where
  "el i tg cl at cs =
     Element \<lparr>nid = i, tag = tg, classes = cl, attrs = at, disabled = False,
              style = empty_css\<rparr> cs"

text \<open>A like button for a post, with its icon and its label.\<close>

definition demo_button :: "nat \<Rightarrow> string \<Rightarrow> node" where
  "demo_button i post =
     el i ''button'' [''like-button''] [(''data-post-id'', post)]
       [el (i + 1) ''svg'' [''like-icon''] [] [el (i + 2) ''path'' [] [] []],
        el (i + 3) ''span'' [''like-text''] [] [TextNode like_label]]"

definition demo_meta :: "string \<Rightarrow> node" where
  "demo_meta c = el 1 ''meta'' [] [(''name'', ''user-id''), (''content'', c)] []"

text \<open>The list of the liked-items page with two cards.\<close>

definition demo_list :: node where
  "demo_list =
     el 2 ''div'' [''articles-list''] []
       [el 3 ''div'' [''article-card''] [] [demo_button 10 ''7''],
        el 4 ''div'' [''article-card''] [] [demo_button 20 ''8'']]"

definition demo_page :: "node list \<Rightarrow> page" where
  "demo_page d =
     \<lparr>doc = d, fresh = 100, requests = [], alerts = [], console = [], inflight = [],
      timers = [], reloads = 0, likes_loaded = True, liked_list = None\<rparr>"




section \<open>Pages that Status Sync is specified on\<close>





text \<open>The identities of the elements of a forest.\<close>

definition ids :: "node list \<Rightarrow> nat set" where
  "ids d = ref ` set (elems d)"





section \<open>Traces\<close>

text \<open>A trace of clicks and of settled requests, run from a page state.\<close>

datatype event = Click nat | Respond nat fetch_outcome

fun step :: "event \<Rightarrow> page \<Rightarrow> page" where
  "step (Click t) s = click t s"
| "step (Respond i outcome) s = respond i outcome s"

definition run :: "event list \<Rightarrow> page \<Rightarrow> page" where
  "run evs s = foldl (\<lambda>s ev. step ev s) s evs"

text \<open>Every click of the trace lands on the button \<open>b\<close> or on no like button.\<close>

fun only_button :: "nat \<Rightarrow> event list \<Rightarrow> page \<Rightarrow> bool" where
  "only_button b [] s = True"
| "only_button b (Click t # evs) s =
     ((closest is_like_button t (doc s) = None \<or> closest is_like_button t (doc s) = Some b) \<and>
      only_button b evs (click t s))"
| "only_button b (Respond i outcome # evs) s = only_button b evs (respond i outcome s)"

text \<open>The number of settled requests of a trace.\<close>

fun responses :: "event list \<Rightarrow> nat" where
  "responses [] = 0"
| "responses (Click t # evs) = responses evs"
| "responses (Respond i outcome # evs) = Suc (responses evs)"

text \<open>The requests that are no longer in flight, and the state of the lock of \<open>b\<close>: nothing
  is in flight, or one request is and the button is disabled.\<close>

definition settled :: "page \<Rightarrow> nat" where
  "settled s = length (requests s) - length (inflight s)"

definition lock_holds :: "nat \<Rightarrow> page \<Rightarrow> bool" where
  "lock_holds b s =
     (length (inflight s) \<le> length (requests s) \<and>
      (inflight s = [] \<or>
       (length (inflight s) = 1 \<and> (\<exists>n. get_elem b (doc s) = Some n \<and> is_disabled n))))"

section \<open>Elements and references\<close>

lemma find_first_Some_sat: "find_first P d = Some n \<Longrightarrow> sat P n"
  by (induction P d rule: find_first.induct) (auto simp: sat_def split: if_splits option.splits)

lemma find_first_Some_Element: "find_first P d = Some n \<Longrightarrow> \<exists>p cs. n = Element p cs \<and> P p"
  using find_first_Some_sat[of P d n] by (cases n) (auto simp: sat_def)

lemma find_first_modify_first:
  "find_first P d = Some n \<Longrightarrow> sat P (f n) \<Longrightarrow> find_first P (modify_first P f d) = Some (f n)"
  by (induction P d rule: find_first.induct)
     (auto simp: sat_def split: if_splits option.splits node.splits)

lemma modify_first_None: "find_first P d = None \<Longrightarrow> modify_first P f d = d"
  by (induction P d rule: find_first.induct) (auto split: if_splits option.splits)

lemma find_nid_modify_None:
  "find_first (\<lambda>p. nid p = i) d = None \<Longrightarrow> modify i f d = d"
  by (induction i f d rule: modify.induct) (auto split: if_splits option.splits)

lemma get_elem_modify_None: "get_elem i d = None \<Longrightarrow> modify i f d = d"
  unfolding get_elem_def by (rule find_nid_modify_None)

lemma get_elem_modify:
  "get_elem i d = Some n \<Longrightarrow> sat (\<lambda>p. nid p = i) (f n) \<Longrightarrow>
   get_elem i (modify i f d) = Some (f n)"
  unfolding get_elem_def
  by (induction i f d rule: modify.induct)
     (auto simp: sat_def find_nid_modify_None split: if_splits option.splits node.splits)

lemma get_elem_Element: "get_elem i d = Some n \<Longrightarrow> \<exists>p cs. n = Element p cs \<and> nid p = i"
  unfolding get_elem_def by (rule find_first_Some_Element)

section \<open>Facts about toggleLike\<close>

lemma toggleLike_begin_anon:
  "\<not> truthy_id userId \<Longrightarrow> toggleLike_begin postId userId button s =
     (Returned (Some (JBool False)), s\<lparr>alerts := alerts s @ [signin_notice]\<rparr>)"
  by (simp add: toggleLike_begin_def)

lemma toggleLike_anon:
  "\<not> truthy_id userId \<Longrightarrow> toggleLike postId userId button outcome s =
     (Inr (Some (JBool False)), s\<lparr>alerts := alerts s @ [signin_notice]\<rparr>)"
  by (simp add: toggleLike_def toggleLike_begin_anon)

lemma toggleLike_begin_button:
  "truthy_id userId \<Longrightarrow> get_elem b (doc s) = Some n \<Longrightarrow>
   toggleLike_begin postId userId (Some b) s =
     (Suspended (ToggleCont (Some b) (Some (capture n))),
      s\<lparr>doc := modify b (lock_button (fresh s)) (doc s), fresh := Suc (fresh s),
        requests := requests s @ [toggle_request postId]\<rparr>)"
  by (simp add: toggleLike_begin_def)

lemma toggleLike_begin_no_button:
  "truthy_id userId \<Longrightarrow>
   toggleLike_begin postId userId None s =
     (Suspended (ToggleCont None None), s\<lparr>requests := requests s @ [toggle_request postId]\<rparr>)"
  by (simp add: toggleLike_begin_def)

lemma requests_toggleLike_try: "requests (snd (toggleLike_try button oc outcome s)) = requests s"
  by (auto simp: toggleLike_try_def Let_def split: fetch_outcome.splits body_result.splits option.splits sum.splits)

lemma requests_toggleLike_catch: "requests (snd (toggleLike_catch button s)) = requests s"
  by (auto simp: toggleLike_catch_def Let_def split: option.splits)

lemma requests_toggleLike_resume: "requests (snd (toggleLike_resume button oc outcome s)) = requests s"
  using requests_toggleLike_try[of button oc outcome s]
  by (auto simp: toggleLike_resume_def requests_toggleLike_catch split: prod.splits sum.splits)

lemma toggleLike_resume_no_throw: "fst (toggleLike_resume button oc outcome s) \<noteq> Inl e"
  by (auto simp: toggleLike_resume_def toggleLike_catch_def Let_def split: prod.splits sum.splits)

lemma catch_restore_lock:
  "catch_restore (lock_button k (Element p cs)) = Element (p\<lparr>disabled := False\<rparr>) [spinner k]"
  by (simp add: catch_restore_def lock_button_def spinner_def is_like_icon_def has_class_def)

lemma toggleLike_failure_state:
  assumes "truthy_id userId" and "get_elem b (doc s) = Some n"
    and "outcome = NetworkError \<or> outcome = Response False bd"
  shows "toggleLike postId userId (Some b) outcome s =
           (Inr (Some (JBool False)),
            s\<lparr>doc := modify b catch_restore (modify b (lock_button (fresh s)) (doc s)),
              fresh := Suc (fresh s),
              requests := requests s @ [toggle_request postId],
              console := console s @ [''Error toggling like:''],
              alerts := alerts s @ [failure_notice]\<rparr>)"
  using assms
  by (auto simp: toggleLike_def toggleLike_begin_button toggleLike_resume_def toggleLike_try_def
      toggleLike_catch_def)

lemma demo_get_button:
  "get_elem 10 [demo_meta c, demo_list] = Some (demo_button 10 ''7'')"
  by (simp add: get_elem_def demo_meta_def demo_list_def demo_button_def el_def)

section \<open>The failure path of toggleLike\<close>

text \<open>
  C1. When the request of \<open>toggleLike\<close> fails, or its response has a non-success status,
  the handler returns \<^verbatim>\<open>false\<close>, shows the failure notice and re-enables the button.
  The icon and the text of the button are not put back: the \<^verbatim>\<open>catch\<close> block looks for
  them in the button, whose content is the loading markup by then, so the button keeps
  the loading markup as its only child.
\<close>

theorem toggleLike_failure_keeps_loading_markup:
  assumes "truthy_id userId" and "get_elem b (doc s) = Some n"
    and "outcome = NetworkError \<or> outcome = Response False bd"
  shows "fst (toggleLike postId userId (Some b) outcome s) = Inr (Some (JBool False)) \<and>
         alerts (snd (toggleLike postId userId (Some b) outcome s)) = alerts s @ [failure_notice] \<and>
         get_elem b (doc (snd (toggleLike postId userId (Some b) outcome s))) =
           Some (set_children [spinner (fresh s)] (set_disabled False n))"
proof -
  obtain p cs where n: "n = Element p cs" and p: "nid p = b"
    using get_elem_Element[OF assms(2)] by blast
  have 1: "get_elem b (modify b (lock_button (fresh s)) (doc s)) = Some (lock_button (fresh s) n)"
    using assms(2) by (rule get_elem_modify) (simp add: n p lock_button_def sat_def)
  have 2: "get_elem b (modify b catch_restore (modify b (lock_button (fresh s)) (doc s)))
             = Some (catch_restore (lock_button (fresh s) n))"
    using 1 by (rule get_elem_modify) (simp add: n p catch_restore_lock sat_def)
  show ?thesis
    using 2 by (simp add: toggleLike_failure_state[OF assms] n catch_restore_lock)
qed

text \<open>On the demo page: the button of post 7 has an icon and a label before the click, and
  after a network failure it holds the loading markup and neither of them.\<close>

theorem toggleLike_failure_demo:
  "find_first is_like_icon (children (demo_button 10 ''7'')) \<noteq> None \<and>
   find_first is_like_text (children (demo_button 10 ''7'')) \<noteq> None \<and>
   (\<exists>n. get_elem 10 (doc (snd (toggleLike 7 (Some 42) (Some 10) NetworkError
                                 (demo_page [demo_meta ''42'', demo_list])))) = Some n \<and>
        children n = [spinner 100] \<and> \<not> is_disabled n \<and>
        find_first is_like_icon (children n) = None \<and>
        find_first is_like_text (children n) = None)"
  using toggleLike_failure_keeps_loading_markup
          [of "Some 42" 10 "demo_page [demo_meta ''42'', demo_list]" "demo_button 10 ''7''"
              NetworkError Unreadable 7]
  by (simp add: demo_get_button demo_page_def demo_button_def el_def spinner_def
      is_like_icon_def is_like_text_def has_class_def)

section \<open>Status queries\<close>

text \<open>
  C8. A status query never throws. When its request fails or the response has a
  non-success status, \<open>isLiked\<close> returns \<^verbatim>\<open>false\<close>; it shows no notice and leaves the
  document as it is.
\<close>

theorem isLiked_failure_is_not_liked:
  "(\<forall>e. fst (isLiked postId userId outcome s) \<noteq> Inl e) \<and>
   (outcome = NetworkError \<or> outcome = Response False bd \<longrightarrow>
      fst (isLiked postId userId outcome s) = Inr (JBool False) \<and>
      doc (snd (isLiked postId userId outcome s)) = doc s \<and>
      alerts (snd (isLiked postId userId outcome s)) = alerts s)"
  by (auto simp: isLiked_def isLiked_resume_def isLiked_try_def
      split: fetch_outcome.splits body_result.splits prod.splits sum.splits)

theorem isLiked_failure_demo:
  "fst (isLiked 7 (Some 42) (Response False (Json (JStr ''Internal Server Error'')))
          (demo_page [demo_meta ''42'', demo_list])) = Inr (JBool False) \<and>
   requests (snd (isLiked 7 (Some 42) (Response False (Json (JStr ''Internal Server Error'')))
          (demo_page [demo_meta ''42'', demo_list]))) =
     [\<lparr>meth = ''GET'', url = ''/api/likes/user/42/post/7'', headers = [], body = None\<rparr>]"
  using isLiked_failure_is_not_liked
          [of 7 "Some 42" "Response False (Json (JStr ''Internal Server Error''))"
              "demo_page [demo_meta ''42'', demo_list]" "Json (JStr ''Internal Server Error'')"]
  by (simp add: isLiked_def isLiked_resume_def isLiked_try_def demo_page_def status_request_def
      show_int_def)

section \<open>toggleLike without a button\<close>

lemma toggleLike_no_button:
  "truthy_id userId \<Longrightarrow>
   toggleLike postId userId None outcome s =
     toggleLike_resume None None outcome (s\<lparr>requests := requests s @ [toggle_request postId]\<rparr>)"
  by (simp add: toggleLike_def toggleLike_begin_no_button)

lemma toggleLike_try_no_button_state: "snd (toggleLike_try None oc outcome s) = s"
  by (simp add: toggleLike_try_def split: fetch_outcome.splits body_result.splits sum.splits)

lemma toggleLike_resume_no_button_doc: "doc (snd (toggleLike_resume None oc outcome s)) = doc s"
  using toggleLike_try_no_button_state[of oc outcome s]
  by (cases "toggleLike_try None oc outcome s"; cases "fst (toggleLike_try None oc outcome s)")
     (simp_all add: toggleLike_resume_def toggleLike_catch_def)

lemma toggleLike_resume_liked:
  "map_of kvs ''liked'' = Some (JBool v) \<Longrightarrow>
   fst (toggleLike_resume None oc (Response True (Json (JObj kvs))) s) = Inr (Some (JBool v))"
  by (simp add: toggleLike_resume_def toggleLike_try_def field_def)

lemma toggleLike_resume_failed:
  "outcome = NetworkError \<or> outcome = Response False bd \<Longrightarrow>
   fst (toggleLike_resume button oc outcome s) = Inr (Some (JBool False))"
  by (auto simp: toggleLike_resume_def toggleLike_try_def toggleLike_catch_def Let_def)

text \<open>
  C10. With no button and a viewer identity, \<open>toggleLike\<close> sends its one request and
  returns the boolean of the response, or \<^verbatim>\<open>false\<close> when the request fails, and the
  document is left as it was.
\<close>

theorem toggleLike_without_button:
  assumes "truthy_id userId"
  shows "doc (snd (toggleLike postId userId None outcome s)) = doc s \<and>
         requests (snd (toggleLike postId userId None outcome s)) = requests s @ [toggle_request postId] \<and>
         (\<forall>e. fst (toggleLike postId userId None outcome s) \<noteq> Inl e) \<and>
         (outcome = Response True (Json (JObj kvs)) \<and> map_of kvs ''liked'' = Some (JBool v) \<longrightarrow>
            fst (toggleLike postId userId None outcome s) = Inr (Some (JBool v))) \<and>
         (outcome = NetworkError \<or> outcome = Response False bd \<longrightarrow>
            fst (toggleLike postId userId None outcome s) = Inr (Some (JBool False)))"
  unfolding toggleLike_no_button[OF assms]
  using toggleLike_resume_failed[of outcome bd None None]
  by (simp add: toggleLike_resume_no_button_doc requests_toggleLike_resume
      toggleLike_resume_no_throw toggleLike_resume_liked)

theorem toggleLike_without_button_demo:
  "truthy_id (Some 42) \<and>
   doc (snd (toggleLike 7 (Some 42) None (Response True (Json (JObj [(''liked'', JBool True)])))
               (demo_page [demo_meta ''42'', demo_list]))) = [demo_meta ''42'', demo_list] \<and>
   requests (snd (toggleLike 7 (Some 42) None (Response True (Json (JObj [(''liked'', JBool True)])))
               (demo_page [demo_meta ''42'', demo_list]))) = [toggle_request 7] \<and>
   fst (toggleLike 7 (Some 42) None (Response True (Json (JObj [(''liked'', JBool True)])))
               (demo_page [demo_meta ''42'', demo_list])) = Inr (Some (JBool True))"
  using toggleLike_without_button
     [where userId = "Some 42" and postId = 7 and v = True and bd = Unreadable
        and outcome = "Response True (Json (JObj [(''liked'', JBool True)]))"
        and kvs = "[(''liked'', JBool True)]" and s = "demo_page [demo_meta ''42'', demo_list]"]
  by (simp add: demo_page_def)


section \<open>The request of a toggle\<close>

lemma toggleLike_begin_suspends:
  "truthy_id userId \<Longrightarrow>
   \<exists>oc s1. toggleLike_begin postId userId button s = (Suspended (ToggleCont button oc), s1) \<and>
           requests s1 = requests s @ [toggle_request postId]"
  by (auto simp: toggleLike_begin_def Let_def split: option.splits)

lemma requests_toggleLike:
  assumes "truthy_id userId"
  shows "requests (snd (toggleLike postId userId button outcome s)) = requests s @ [toggle_request postId]"
proof -
  obtain oc s1 where b: "toggleLike_begin postId userId button s = (Suspended (ToggleCont button oc), s1)"
    and r: "requests s1 = requests s @ [toggle_request postId]"
    using toggleLike_begin_suspends[OF assms] by blast
  show ?thesis by (simp add: toggleLike_def b requests_toggleLike_resume r)
qed

lemma requests_liked_posts_resume: "requests (liked_posts_resume l b outcome s) = requests s"
  by (simp add: liked_posts_resume_def liked_posts_catch_def
      split: fetch_outcome.splits body_result.splits sum.splits option.splits)

lemma requests_liked_posts_click:
  "requests (snd (liked_posts_click l t s)) = requests s \<or>
   (\<exists>pid. requests (snd (liked_posts_click l t s)) = requests s @ [toggle_request pid])"
  by (auto simp: liked_posts_click_def Let_def split: option.splits)

text \<open>
  C7, as the code has it. A call of \<open>toggleLike\<close> with a viewer identity sends exactly one
  request, whatever the button and however the request settles: a POST to the toggle
  endpoint whose body carries the post and \<^verbatim>\<open>liked: true\<close>. A call without an identity
  sends none. The handler of the liked-items page sends the same request at most once per
  click and none when it resumes.
\<close>

theorem toggle_sends_one_request:
  "(truthy_id userId \<longrightarrow>
      requests (snd (toggleLike postId userId button outcome s)) = requests s @ [toggle_request postId]) \<and>
   (\<not> truthy_id userId \<longrightarrow>
      requests (snd (toggleLike postId userId button outcome s)) = requests s) \<and>
   (requests (snd (liked_posts_click l t s)) = requests s \<or>
      (\<exists>pid. requests (snd (liked_posts_click l t s)) = requests s @ [toggle_request pid])) \<and>
   requests (liked_posts_resume l b outcome s) = requests s \<and>
   toggle_request postId =
     \<lparr>meth = ''POST'', url = ''/api/likes/toggle'',
      headers = [(''Content-Type'', ''application/json'')],
      body = Some (JObj [(''post_id'', JNum postId), (''liked'', JBool True)])\<rparr>"
  using requests_liked_posts_click[of l t s]
  by (simp add: requests_toggleLike toggleLike_anon requests_liked_posts_resume toggle_request_def)

theorem toggle_sends_one_request_demo:
  "truthy_id (Some 42) \<and>
   requests (snd (toggleLike 7 (Some 42) (Some 10) NetworkError (demo_page [demo_meta ''42'', demo_list])))
     = [\<lparr>meth = ''POST'', url = ''/api/likes/toggle'',
         headers = [(''Content-Type'', ''application/json'')],
         body = Some (JObj [(''post_id'', JNum 7), (''liked'', JBool True)])\<rparr>]"
  using toggle_sends_one_request
     [where userId = "Some 42" and postId = 7 and button = "Some 10" and outcome = NetworkError
        and s = "demo_page [demo_meta ''42'', demo_list]" and l = 2 and t = 11 and b = 10]
  by (simp add: demo_page_def)

lemma demo_anonymous: "getCurrentUserId [demo_list] = None"
  by (simp add: getCurrentUserId_def demo_list_def demo_button_def el_def is_user_meta_def)

text \<open>C7 as stated fails for a call without a viewer identity: no request is sent.\<close>

theorem toggleLike_anonymous_sends_nothing:
  "requests (snd (toggleLike 7 (getCurrentUserId [demo_list]) (Some 10) NetworkError
                    (demo_page [demo_list]))) = []"
  by (simp add: demo_anonymous toggleLike_anon demo_page_def)

section \<open>Anonymous viewers\<close>

lemma click_anonymous:
  assumes "\<not> truthy_id (getCurrentUserId (doc s))"
  shows "requests (click t s) = requests s \<and> inflight (click t s) = inflight s"
proof -
  have 1: "requests (likes_click t s) = requests s \<and> inflight (likes_click t s) = inflight s" for t
    using assms by (simp add: likes_click_def toggleLike_begin_anon Let_def split: option.splits)
  have 2: "snd (liked_posts_click l t s) = s" for l t
    using assms by (simp add: liked_posts_click_def Let_def split: option.splits)
  have 3: "requests (document_click t s) = requests s \<and> inflight (document_click t s) = inflight s" for t
    using 1 by (simp add: document_click_def)
  show ?thesis
  proof (cases "liked_list s")
    case None
    then show ?thesis using 3 by (simp add: click_def)
  next
    case (Some l)
    obtain st where c: "liked_posts_click l t s = (st, s)"
      using 2[of l t] by (cases "liked_posts_click l t s") simp
    show ?thesis using 3[of t] by (cases st) (simp_all add: click_def Some c)
  qed
qed


lemma liked_posts_click_anonymous:
  "\<not> truthy_id (getCurrentUserId (doc s)) \<Longrightarrow> snd (liked_posts_click l t s) = s"
  by (simp add: liked_posts_click_def Let_def split: option.splits)

text \<open>
  C6, as the code has it. Without a viewer identity \<open>toggleLike\<close> sends no request, shows
  the sign-in notice and returns \<^verbatim>\<open>false\<close>; a click sends no request on any view; and
  the handler of the liked-items page leaves the page as it is, so it shows no notice.
\<close>

theorem anonymous_toggle_sends_nothing:
  "(\<not> truthy_id userId \<longrightarrow>
      toggleLike postId userId button outcome s =
        (Inr (Some (JBool False)), s\<lparr>alerts := alerts s @ [signin_notice]\<rparr>)) \<and>
   (\<not> truthy_id (getCurrentUserId (doc s)) \<longrightarrow>
      requests (click t s) = requests s \<and> inflight (click t s) = inflight s \<and>
      snd (liked_posts_click l t s) = s)"
  by (simp add: toggleLike_anon click_anonymous liked_posts_click_anonymous)

theorem anonymous_toggle_demo:
  "\<not> truthy_id (getCurrentUserId [demo_list]) \<and>
   toggleLike 7 (getCurrentUserId [demo_list]) (Some 10) NetworkError (demo_page [demo_list]) =
     (Inr (Some (JBool False)), (demo_page [demo_list])\<lparr>alerts := [signin_notice]\<rparr>) \<and>
   requests (click 11 (demo_page [demo_list])) = []"
  using anonymous_toggle_sends_nothing
     [where userId = "getCurrentUserId [demo_list]" and postId = 7 and button = "Some 10"
        and outcome = NetworkError and s = "demo_page [demo_list]" and t = 11 and l = 2]
  by (simp add: demo_anonymous demo_page_def)

lemma demo_setup:
  "setupLikedPostsPage (demo_page d) = (demo_page d)\<lparr>liked_list := map_option ref (find_first is_articles_list d)\<rparr>"
  by (simp add: setupLikedPostsPage_def demo_page_def split: option.splits)

lemma demo_find_list: "find_first is_articles_list [demo_list] = Some demo_list"
  by (simp add: demo_list_def el_def is_articles_list_def has_class_def)

lemma demo_path_icon:
  "path_to 11 [demo_list] =
     Some [el 11 ''svg'' [''like-icon''] [] [el 12 ''path'' [] [] []], demo_button 10 ''7'',
           el 3 ''div'' [''article-card''] [] [demo_button 10 ''7''], demo_list]"
  by (simp add: demo_list_def demo_button_def el_def)

lemma demo_closest_button: "closest is_like_button 11 [demo_list] = Some 10"
  by (simp add: closest_def demo_path_icon)
     (simp add: demo_list_def demo_button_def el_def sat_def is_like_button_def has_class_def)

text \<open>C6 as stated fails on the liked-items page: a click of an anonymous viewer on the
  icon of a like button in the list shows no notice.\<close>

theorem liked_page_anonymous_click_is_silent:
  "inside 11 2 [demo_list] \<and> closest is_like_button 11 [demo_list] = Some 10 \<and>
   alerts (click 11 (setupLikedPostsPage (demo_page [demo_list]))) = []"
proof -
  have i: "inside 11 2 [demo_list]"
    by (simp add: inside_def demo_path_icon) (simp add: demo_list_def demo_button_def el_def)
  have g: "get_elem 10 [demo_list] = Some (demo_button 10 ''7'')"
    by (simp add: get_elem_def demo_list_def demo_button_def el_def)
  have d: "\<not> is_disabled (demo_button 10 ''7'')" by (simp add: demo_button_def el_def)
  have c: "liked_posts_click 2 11 ((demo_page [demo_list])\<lparr>liked_list := Some 2\<rparr>)
            = (True, (demo_page [demo_list])\<lparr>liked_list := Some 2\<rparr>)"
    by (simp add: liked_posts_click_def demo_page_def demo_closest_button g d demo_anonymous)
  have r: "ref demo_list = 2" by (simp add: demo_list_def el_def)
  show ?thesis
    using i c by (simp add: demo_closest_button demo_setup demo_find_list r click_def)
       (simp add: demo_page_def)
qed

section \<open>The viewer identity\<close>

lemma dropWhile_rev_dropWhile_Nil:
  assumes "dropWhile P (rev (dropWhile P xs)) = []"
  shows "dropWhile P xs = []"
proof (rule ccontr)
  assume ne: "dropWhile P xs \<noteq> []"
  then have "\<not> P (hd (dropWhile P xs))" by (rule hd_dropWhile)
  moreover have "hd (dropWhile P xs) \<in> set (rev (dropWhile P xs))" using ne by simp
  moreover have "\<forall>x \<in> set (rev (dropWhile P xs)). P x"
    using assms by (simp only: dropWhile_eq_Nil_conv)
  ultimately show False by blast
qed

lemma parseInt_no_text: "dropWhile is_space c = [] \<Longrightarrow> parseInt c = None"
proof -
  assume h: "dropWhile is_space c = []"
  have 1: "strip_sign [] = (1, [])" by (simp add: strip_sign_def)
  have 2: "strip_radix [] = (10, [])" by (simp add: strip_radix_def)
  show ?thesis by (simp add: parseInt_def h 1 2 del: dropWhile_eq_Nil_conv)
qed

lemma parseInt_blank: "trim c = [] \<Longrightarrow> parseInt c = None"
proof (rule parseInt_no_text)
  assume "trim c = []"
  then have "dropWhile is_space (rev (dropWhile is_space c)) = []"
    by (simp add: trim_def del: dropWhile_eq_Nil_conv)
  then show "dropWhile is_space c = []" by (rule dropWhile_rev_dropWhile_Nil)
qed

lemma getCurrentUserId_content:
  assumes "find_first is_user_meta d = Some m" and "props_of m = Some p"
    and "getAttribute ''content'' p = Some c" and "parseInt c = Some n"
  shows "getCurrentUserId d = Some n"
proof -
  have "trim c \<noteq> []" using assms(4) parseInt_blank[of c] by auto
  moreover have "c \<noteq> []" using calculation by (auto simp: trim_def)
  ultimately show ?thesis using assms by (simp add: getCurrentUserId_def)
qed

lemma requests_initializeLikes_anonymous:
  "\<not> truthy_id (getCurrentUserId (doc s)) \<Longrightarrow> requests (initializeLikes s) = requests s"
  by (simp add: initializeLikes_def)

text \<open>
  C9. A user-id meta element whose content parses to 0 gives the identity 0, which is not
  \<^verbatim>\<open>null\<close>; yet \<open>isLiked\<close> then returns \<^verbatim>\<open>false\<close> without a request, and \<open>toggleLike\<close>
  shows the sign-in notice and returns \<^verbatim>\<open>false\<close> without a request, because both test
  the identity for falsiness. With that identity a click and \<open>initializeLikes\<close> send no
  request either.
\<close>

theorem zero_identity_is_anonymous:
  assumes "find_first is_user_meta (doc s) = Some m" and "props_of m = Some p"
    and "getAttribute ''content'' p = Some c" and "parseInt c = Some 0"
  shows "getCurrentUserId (doc s) = Some 0 \<and>
         isLiked postId (getCurrentUserId (doc s)) outcome s = (Inr (JBool False), s) \<and>
         toggleLike postId (getCurrentUserId (doc s)) button outcome s =
           (Inr (Some (JBool False)), s\<lparr>alerts := alerts s @ [signin_notice]\<rparr>) \<and>
         requests (click t s) = requests s \<and>
         requests (initializeLikes s) = requests s"
proof -
  have g: "getCurrentUserId (doc s) = Some 0" using assms by (rule getCurrentUserId_content)
  then have a: "\<not> truthy_id (getCurrentUserId (doc s))" by simp
  show ?thesis
    using click_anonymous[OF a, of t] requests_initializeLikes_anonymous[OF a]
    by (simp add: g isLiked_def toggleLike_anon)
qed

lemma parseInt_0: "parseInt ''0'' = Some 0"
  by (simp add: parseInt_def strip_sign_def strip_radix_def is_space_def digit_of_def)

lemma demo_find_meta: "find_first is_user_meta [demo_meta c, demo_list] = Some (demo_meta c)"
  by (simp add: demo_meta_def el_def is_user_meta_def getAttribute_def)

lemma demo_meta_content:
  "props_of (demo_meta c) = Some \<lparr>nid = 1, tag = ''meta'', classes = [],
      attrs = [(''name'', ''user-id''), (''content'', c)], disabled = False, style = empty_css\<rparr>"
  by (simp add: demo_meta_def el_def)

theorem zero_identity_demo:
  "getCurrentUserId [demo_meta ''0'', demo_list] = Some 0 \<and>
   isLiked 7 (getCurrentUserId [demo_meta ''0'', demo_list]) (Response True (Json (JBool True)))
       (demo_page [demo_meta ''0'', demo_list])
     = (Inr (JBool False), demo_page [demo_meta ''0'', demo_list]) \<and>
   toggleLike 7 (getCurrentUserId [demo_meta ''0'', demo_list]) (Some 10)
       (Response True (Json (JBool True))) (demo_page [demo_meta ''0'', demo_list])
     = (Inr (Some (JBool False)),
        (demo_page [demo_meta ''0'', demo_list])\<lparr>alerts := [signin_notice]\<rparr>) \<and>
   requests (click 11 (demo_page [demo_meta ''0'', demo_list])) = []"
  using zero_identity_is_anonymous
     [where s = "demo_page [demo_meta ''0'', demo_list]" and m = "demo_meta ''0''" and c = "''0''"
        and p = "\<lparr>nid = 1, tag = ''meta'', classes = [],
                  attrs = [(''name'', ''user-id''), (''content'', ''0'')], disabled = False,
                  style = empty_css\<rparr>"
        and postId = 7 and outcome = "Response True (Json (JBool True))"
        and button = "Some 10" and t = 11]
  by (auto simp: parseInt_0 demo_find_meta demo_meta_content getAttribute_def demo_page_def)

section \<open>The success path of toggleLike\<close>

lemma selectors_ignore_style [simp]:
  "is_like_icon (p\<lparr>style := st\<rparr>) = is_like_icon p"
  "is_like_text (p\<lparr>style := st\<rparr>) = is_like_text p"
  "is_like_button (p\<lparr>style := st\<rparr>) = is_like_button p"
  "is_post_like_button (p\<lparr>style := st\<rparr>) = is_post_like_button p"
  "is_article_card (p\<lparr>style := st\<rparr>) = is_article_card p"
  by (simp_all add: is_like_icon_def is_like_text_def is_like_button_def is_post_like_button_def
      is_article_card_def has_class_def getAttribute_def)

lemma selectors_ignore_disabled [simp]:
  "is_like_icon (p\<lparr>disabled := d\<rparr>) = is_like_icon p"
  "is_like_text (p\<lparr>disabled := d\<rparr>) = is_like_text p"
  "is_like_button (p\<lparr>disabled := d\<rparr>) = is_like_button p"
  "is_post_like_button (p\<lparr>disabled := d\<rparr>) = is_post_like_button p"
  "is_article_card (p\<lparr>disabled := d\<rparr>) = is_article_card p"
  by (simp_all add: is_like_icon_def is_like_text_def is_like_button_def is_post_like_button_def
      is_article_card_def has_class_def getAttribute_def)

lemma find_first_absent_inside:
  "find_first P d = None \<Longrightarrow> find_first Q d = Some x \<Longrightarrow> find_first P [x] = None"
  by (induction Q d rule: find_first.induct) (auto split: if_splits option.splits)

lemma absent_in_Element:
  "find_first P [Element p cs] = None \<longleftrightarrow> \<not> P p \<and> find_first P cs = None"
  by (auto split: option.splits)

lemma label_written:
  assumes "find_first is_like_text d = Some x"
  shows "\<exists>x'. find_first is_like_text (modify_first is_like_text (set_textContent l) d) = Some x' \<and>
              textContent (children x') = l"
proof -
  obtain xp xcs where x: "x = Element xp xcs" and t: "is_like_text xp"
    using find_first_Some_Element[OF assms] by blast
  have "find_first is_like_text (modify_first is_like_text (set_textContent l) d)
          = Some (set_textContent l x)"
    using assms by (rule find_first_modify_first) (simp add: x t sat_def set_textContent_def)
  then show ?thesis by (simp add: x set_textContent_def)
qed

lemma repaint_restored:
  assumes I: "find_first is_like_icon cs = oi" and T: "find_first is_like_text cs = ot"
    and rc: "rc = restore_children \<lparr>orig_icon = oi, orig_text = ot\<rparr>"
    and cs': "cs' = modify_first is_like_text (set_textContent l)
                     (modify_first is_like_icon (set_style (\<lambda>st. st\<lparr>fill := a, stroke := b\<rparr>)) rc)"
  shows "icon_style_is a b cs' \<and> label_is l cs' \<and> list_all2 same_element cs' rc"
proof (cases oi)
  case None
  note oiN = None
  show ?thesis
  proof (cases ot)
    case None
    then show ?thesis using oiN rc cs' by (simp add: restore_children_def icon_style_is_def label_is_def)
  next
    case (Some t)
    obtain tp tcs where t: "t = Element tp tcs" and tt: "is_like_text tp"
      using find_first_Some_Element[of is_like_text cs t] T Some by blast
    have "find_first is_like_icon [t] = None"
      using find_first_absent_inside[of is_like_icon cs is_like_text t] I T oiN Some by simp
    then have ni: "\<not> is_like_icon tp" and nic: "find_first is_like_icon tcs = None"
      by (auto simp: t split: if_splits option.splits)
    show ?thesis using oiN Some rc cs' ni nic tt
      by (simp add: restore_children_def icon_style_is_def label_is_def t set_textContent_def
          same_element_def)
  qed
next
  case (Some i)
  note oiS = Some
  obtain ip ics where i: "i = Element ip ics" and ii: "is_like_icon ip"
    using find_first_Some_Element[of is_like_icon cs i] I Some by blast
  show ?thesis
  proof (cases ot)
    case None
    have "find_first is_like_text [i] = None"
      using find_first_absent_inside[of is_like_text cs is_like_icon i] I T oiS None by simp
    then have nt: "\<not> is_like_text ip" and ntc: "find_first is_like_text ics = None"
      by (auto simp: i split: if_splits option.splits)
    show ?thesis using oiS None rc cs' nt ntc ii
      by (simp add: restore_children_def icon_style_is_def label_is_def i same_element_def modify_first_None)
  next
    case (Some t)
    obtain tp tcs where t: "t = Element tp tcs" and tt: "is_like_text tp"
      using find_first_Some_Element[of is_like_text cs t] T Some by blast
    show ?thesis
    proof (cases "is_like_text ip")
      case True
      then show ?thesis using oiS Some rc cs' ii tt
        by (simp add: restore_children_def icon_style_is_def label_is_def i t same_element_def
            set_textContent_def)
    next
      case False
      note nt = False
      show ?thesis
      proof (cases "find_first is_like_text ics")
        case None
        then show ?thesis using oiS Some rc cs' ii tt nt
          by (simp add: restore_children_def icon_style_is_def label_is_def i t same_element_def
              set_textContent_def)
      next
        case (Some x)
        obtain x' where "find_first is_like_text (modify_first is_like_text (set_textContent l) ics) = Some x'"
          and "textContent (children x') = l"
          using label_written[OF Some] by blast
        then show ?thesis using oiS \<open>ot = Some t\<close> Some rc cs' ii tt nt
          by (simp add: restore_children_def icon_style_is_def label_is_def i t same_element_def)
      qed
    qed
  qed
qed


lemma toggleLike_success_state:
  assumes "truthy_id userId" and "get_elem b (doc s) = Some n"
    and "map_of kvs ''liked'' = Some (JBool v)"
  shows "toggleLike postId userId (Some b) (Response True (Json (JObj kvs))) s =
           (Inr (Some (JBool v)),
            s\<lparr>doc := modify b (\<lambda>n. set_disabled False (updateLikeButton n v))
                       (modify b (set_children (restore_children (capture n)))
                          (modify b (lock_button (fresh s)) (doc s))),
              fresh := Suc (fresh s),
              requests := requests s @ [toggle_request postId]\<rparr>)"
  using assms
  by (simp add: toggleLike_def toggleLike_begin_button toggleLike_resume_def toggleLike_try_def
      field_def)

lemma get_elem_after_success:
  assumes "get_elem b d = Some n"
  shows "get_elem b (modify b (\<lambda>n. set_disabled False (updateLikeButton n v))
                       (modify b (set_children rc) (modify b (lock_button k) d)))
         = Some (set_disabled False (updateLikeButton (set_children rc (lock_button k n)) v))"
proof -
  obtain p cs where n: "n = Element p cs" and p: "nid p = b"
    using get_elem_Element[OF assms] by blast
  have 1: "get_elem b (modify b (lock_button k) d) = Some (lock_button k n)"
    using assms by (rule get_elem_modify) (simp add: n p lock_button_def sat_def)
  have 2: "get_elem b (modify b (set_children rc) (modify b (lock_button k) d))
             = Some (set_children rc (lock_button k n))"
    using 1 by (rule get_elem_modify) (simp add: n p lock_button_def sat_def)
  show ?thesis
    using 2 by (rule get_elem_modify) (simp add: n p lock_button_def sat_def)
qed

lemma has_class_update [simp]:
  "has_class c (p\<lparr>classes := cl\<rparr>) = (c \<in> set cl)"
  "has_class c (p\<lparr>disabled := d\<rparr>) = has_class c p"
  "has_class c (p\<lparr>style := st\<rparr>) = has_class c p"
  by (simp_all add: has_class_def)

lemma liked_class [simp]:
  "c \<in> set (class_add c cl)" "c \<notin> set (class_remove c cl)"
  by (simp_all add: class_add_def class_remove_def)

lemma repainted_button:
  assumes "n = Element p cs"
    and "n' = set_disabled False
                (updateLikeButton (set_children (restore_children (capture n)) (lock_button k n)) v)"
  shows "\<not> is_disabled n' \<and> visual_state v n' \<and>
         list_all2 same_element (children n') (restore_children (capture n))"
proof (cases v)
  case True
  have "icon_style_is ''#e91e63'' ''#e91e63'' (children n') \<and> label_is liked_label (children n') \<and>
        list_all2 same_element (children n') (restore_children (capture n))"
    by (rule repaint_restored[where cs = cs and oi = "find_first is_like_icon cs"
            and ot = "find_first is_like_text cs"])
       (simp_all add: assms True capture_def lock_button_def)
  then show ?thesis by (simp add: assms True visual_state_def lock_button_def)
next
  case False
  have "icon_style_is ''none'' [] (children n') \<and> label_is like_label (children n') \<and>
        list_all2 same_element (children n') (restore_children (capture n))"
    by (rule repaint_restored[where cs = cs and oi = "find_first is_like_icon cs"
            and ot = "find_first is_like_text cs"])
       (simp_all add: assms False capture_def lock_button_def)
  then show ?thesis by (simp add: assms False visual_state_def lock_button_def)
qed

text \<open>
  C2. When the toggle request succeeds with a body whose \<^verbatim>\<open>liked\<close> field is the boolean
  \<open>v\<close>, \<open>toggleLike\<close> returns \<open>v\<close>; the button is enabled again, its children are the icon
  and the text it had when it was locked, and it shows \<open>v\<close>: the class \<^verbatim>\<open>liked\<close> is there
  exactly when \<open>v\<close> holds, and the icon and the label are painted for \<open>v\<close>, whatever the
  button showed before.
\<close>

theorem toggleLike_success_repaints:
  assumes "truthy_id userId" and "get_elem b (doc s) = Some n"
    and "map_of kvs ''liked'' = Some (JBool v)"
  shows "fst (toggleLike postId userId (Some b) (Response True (Json (JObj kvs))) s)
           = Inr (Some (JBool v)) \<and>
         (\<exists>n'. get_elem b (doc (snd (toggleLike postId userId (Some b)
                                        (Response True (Json (JObj kvs))) s))) = Some n' \<and>
               \<not> is_disabled n' \<and> visual_state v n' \<and>
               list_all2 same_element (children n') (restore_children (capture n)))"
proof -
  obtain p cs where n: "n = Element p cs"
    using get_elem_Element[OF assms(2)] by blast
  show ?thesis
    using repainted_button[OF n refl, of "fresh s" v]
    by (simp add: toggleLike_success_state[OF assms] get_elem_after_success[OF assms(2)])
qed

theorem toggleLike_success_demo:
  "truthy_id (Some 42) \<and>
   fst (toggleLike 7 (Some 42) (Some 10) (Response True (Json (JObj [(''liked'', JBool True)])))
          (demo_page [demo_meta ''42'', demo_list])) = Inr (Some (JBool True)) \<and>
   (\<exists>n'. get_elem 10 (doc (snd (toggleLike 7 (Some 42) (Some 10)
                                   (Response True (Json (JObj [(''liked'', JBool True)])))
                                   (demo_page [demo_meta ''42'', demo_list])))) = Some n' \<and>
         \<not> is_disabled n' \<and> visual_state True n' \<and>
         list_all2 same_element (children n') (children (demo_button 10 ''7'')))"
proof -
  have c: "restore_children (capture (demo_button 10 ''7'')) = children (demo_button 10 ''7'')"
    by (simp add: restore_children_def capture_def demo_button_def el_def is_like_icon_def
        is_like_text_def has_class_def)
  show ?thesis
    using toggleLike_success_repaints
       [where userId = "Some 42" and b = 10 and s = "demo_page [demo_meta ''42'', demo_list]"
          and n = "demo_button 10 ''7''" and kvs = "[(''liked'', JBool True)]" and v = True
          and postId = 7]
    by (simp add: demo_get_button demo_page_def c)
qed


section \<open>The processing lock\<close>

lemma likes_click_sends:
  assumes "closest is_like_button t (doc s) = Some b"
    and "requests (likes_click t s) \<noteq> requests s"
  shows "\<exists>n pid. get_elem b (doc s) = Some n \<and>
           likes_click t s =
             s\<lparr>doc := modify b (lock_button (fresh s)) (doc s), fresh := Suc (fresh s),
               requests := requests s @ [toggle_request pid],
               inflight := inflight s @ [ToggleCont (Some b) (Some (capture n))]\<rparr>"
proof (cases "get_elem b (doc s)")
  case None
  then show ?thesis using assms by (simp add: likes_click_def)
next
  case (Some n)
  show ?thesis
  proof (cases "is_disabled n \<or> post_id_of n = None \<or> \<not> truthy_id (getCurrentUserId (doc s))")
    case True
    then show ?thesis using assms Some
      by (auto simp: likes_click_def toggleLike_begin_anon Let_def split: option.splits)
  next
    case False
    then obtain pid where "post_id_of n = Some pid" by auto
    then show ?thesis using assms Some False
      by (auto simp: likes_click_def toggleLike_begin_button)
  qed
qed

lemma liked_posts_click_stops:
  "closest is_like_button t (doc s) = Some b \<Longrightarrow> fst (liked_posts_click l t s)"
  by (simp add: liked_posts_click_def Let_def split: option.splits)

lemma liked_posts_click_sends:
  assumes "closest is_like_button t (doc s) = Some b"
    and "requests (snd (liked_posts_click l t s)) \<noteq> requests s"
  shows "\<exists>n pid. get_elem b (doc s) = Some n \<and>
           liked_posts_click l t s =
             (True, s\<lparr>doc := modify b (set_disabled True) (doc s),
                      requests := requests s @ [toggle_request pid],
                      inflight := inflight s @ [LikedPostsCont l b]\<rparr>)"
  using assms
  by (auto simp: liked_posts_click_def Let_def split: option.splits if_splits)

lemma get_elem_locked:
  assumes "get_elem b d = Some n"
  shows "\<exists>n1. get_elem b (modify b (lock_button k) d) = Some n1 \<and> is_disabled n1"
proof -
  obtain p cs where n: "n = Element p cs" and p: "nid p = b"
    using get_elem_Element[OF assms] by blast
  have "get_elem b (modify b (lock_button k) d) = Some (lock_button k n)"
    using assms by (rule get_elem_modify) (simp add: n p lock_button_def sat_def)
  then show ?thesis by (simp add: n lock_button_def)
qed

lemma get_elem_disabled:
  assumes "get_elem b d = Some n"
  shows "\<exists>n1. get_elem b (modify b (set_disabled True) d) = Some n1 \<and> is_disabled n1"
proof -
  obtain p cs where n: "n = Element p cs" and p: "nid p = b"
    using get_elem_Element[OF assms] by blast
  have "get_elem b (modify b (set_disabled True) d) = Some (set_disabled True n)"
    using assms by (rule get_elem_modify) (simp add: n p sat_def)
  then show ?thesis by (simp add: n)
qed

lemma click_sends:
  assumes "closest is_like_button t (doc s) = Some b"
    and "requests (click t s) \<noteq> requests s"
  shows "(\<exists>pid. requests (click t s) = requests s @ [toggle_request pid]) \<and>
         (\<exists>k. inflight (click t s) = inflight s @ [k]) \<and>
         (\<exists>n1. get_elem b (doc (click t s)) = Some n1 \<and> is_disabled n1)"
proof -
  have likes: ?thesis if c: "click t s = likes_click t s"
  proof -
    obtain n pid where g: "get_elem b (doc s) = Some n"
      and e: "likes_click t s =
             s\<lparr>doc := modify b (lock_button (fresh s)) (doc s), fresh := Suc (fresh s),
               requests := requests s @ [toggle_request pid],
               inflight := inflight s @ [ToggleCont (Some b) (Some (capture n))]\<rparr>"
      using likes_click_sends[OF assms(1)] assms(2) c by auto
    show ?thesis using get_elem_locked[OF g, of "fresh s"] by (auto simp: c e)
  qed
  have liked: ?thesis if c: "click t s = snd (liked_posts_click l t s)" for l
  proof -
    obtain n pid where g: "get_elem b (doc s) = Some n"
      and e: "liked_posts_click l t s =
             (True, s\<lparr>doc := modify b (set_disabled True) (doc s),
                      requests := requests s @ [toggle_request pid],
                      inflight := inflight s @ [LikedPostsCont l b]\<rparr>)"
      using liked_posts_click_sends[OF assms(1), of l] assms(2) c by auto
    show ?thesis using get_elem_disabled[OF g] by (auto simp: c e)
  qed
  show ?thesis
  proof (cases "liked_list s")
    case None
    then have "click t s = likes_click t s"
      using assms(2) by (auto simp: click_def document_click_def split: if_splits)
    then show ?thesis by (rule likes)
  next
    case (Some l)
    show ?thesis
    proof (cases "inside t l (doc s)")
      case True
      have "fst (liked_posts_click l t s)" using assms(1) by (rule liked_posts_click_stops)
      then have "click t s = snd (liked_posts_click l t s)"
        using Some True by (cases "liked_posts_click l t s") (simp add: click_def)
      then show ?thesis by (rule liked)
    next
      case False
      then have "click t s = likes_click t s"
        using assms(2) Some by (auto simp: click_def document_click_def split: if_splits)
      then show ?thesis by (rule likes)
    qed
  qed
qed

lemma click_locked_noop:
  assumes "closest is_like_button t (doc s) = Some b"
    and "get_elem b (doc s) = Some n" and "is_disabled n"
  shows "click t s = s"
proof -
  have 1: "likes_click t s = s" using assms by (simp add: likes_click_def)
  have 2: "liked_posts_click l t s = (True, s)" for l using assms by (simp add: liked_posts_click_def)
  show ?thesis using 1 2 by (simp add: click_def document_click_def split: option.splits)
qed

lemma clicks_locked_noop:
  assumes "\<forall>t \<in> set ts. closest is_like_button t (doc s) = Some b"
    and "get_elem b (doc s) = Some n" and "is_disabled n"
  shows "foldl (\<lambda>s t. click t s) s ts = s"
  using assms
proof (induction ts)
  case Nil
  then show ?case by simp
next
  case (Cons t ts)
  have "click t s = s" using Cons.prems by (intro click_locked_noop[of t s b n]) simp_all
  then show ?case using Cons by simp
qed

lemma clicks_while_locked:
  assumes "closest is_like_button t (doc s) = Some b"
    and "requests (click t s) \<noteq> requests s"
    and "\<forall>t' \<in> set ts. closest is_like_button t' (doc (click t s)) = Some b"
  shows "(\<exists>pid. requests (click t s) = requests s @ [toggle_request pid]) \<and>
         (\<exists>k. inflight (click t s) = inflight s @ [k]) \<and>
         (\<exists>n1. get_elem b (doc (click t s)) = Some n1 \<and> is_disabled n1) \<and>
         foldl (\<lambda>s t'. click t' s) (click t s) ts = click t s"
proof -
  note c = click_sends[OF assms(1,2)]
  then obtain n1 where "get_elem b (doc (click t s)) = Some n1" and "is_disabled n1" by blast
  then have "foldl (\<lambda>s t'. click t' s) (click t s) ts = click t s"
    using assms(3) by (intro clicks_locked_noop[of ts "click t s" b n1]) simp_all
  then show ?thesis using c by simp
qed



section \<open>The liked-items page\<close>
















section \<open>Status Sync for an anonymous viewer\<close>

lemma ids_simps [simp]:
  "ids [] = {}"
  "ids (TextNode t # ns) = ids ns"
  "ids (Element p cs # ns) = insert (nid p) (ids cs \<union> ids ns)"
  by (auto simp: ids_def)















lemma qsa_simps [simp]:
  "querySelectorAll P [] = []"
  "querySelectorAll P (TextNode t # ns) = querySelectorAll P ns"
  "querySelectorAll P (Element p cs # ns) =
     (if P p then [Element p cs] else []) @ querySelectorAll P cs @ querySelectorAll P ns"
  by (simp_all add: querySelectorAll_def sat_def)











lemma post_button_ignores_liked [simp]:
  "is_post_like_button (p\<lparr>classes := class_remove ''liked'' (classes p)\<rparr>) = is_post_like_button p"
  by (simp add: is_post_like_button_def has_class_def class_remove_def getAttribute_def)








section \<open>The lock along a trace\<close>

lemma click_no_button:
  "closest is_like_button t (doc s) = None \<Longrightarrow> click t s = s"
  by (simp add: click_def document_click_def likes_click_def liked_posts_click_def
      split: option.splits)

lemma likes_click_quiet:
  "requests (likes_click t s) = requests s \<Longrightarrow> inflight (likes_click t s) = inflight s"
  by (auto simp: likes_click_def toggleLike_begin_def Let_def split: option.splits if_splits)

lemma liked_posts_click_quiet:
  "requests (snd (liked_posts_click l t s)) = requests s \<Longrightarrow>
   inflight (snd (liked_posts_click l t s)) = inflight s"
  by (auto simp: liked_posts_click_def Let_def split: option.splits if_splits)

lemma click_cases:
  "click t s = likes_click t s \<or> click t s = s \<or> (\<exists>l. click t s = snd (liked_posts_click l t s))"
  by (auto simp: click_def document_click_def liked_posts_click_def Let_def
      split: option.splits prod.splits bool.splits if_splits)

lemma click_quiet:
  "requests (click t s) = requests s \<Longrightarrow> inflight (click t s) = inflight s"
  using click_cases[of t s] likes_click_quiet[of t s] liked_posts_click_quiet[of _ t s]
  by auto

lemma requests_respond: "requests (respond i outcome s) = requests s"
proof (cases "i < length (inflight s)")
  case True
  let ?s = "s\<lparr>inflight := take i (inflight s) @ drop (Suc i) (inflight s)\<rparr>"
  have "requests (resume k outcome ?s) = requests s" for k
  proof (cases k)
    case (ToggleCont b oc)
    then show ?thesis
      using requests_toggleLike_resume[of b oc outcome ?s]
      by (auto simp: resume_def split: prod.splits sum.splits option.splits)
  next
    case (LikedPostsCont l b)
    then show ?thesis by (simp add: resume_def requests_liked_posts_resume)
  next
    case (StatusCont b)
    then show ?thesis
      by (auto simp: resume_def isLiked_resume_def isLiked_try_def
          split: prod.splits sum.splits fetch_outcome.splits body_result.splits)
  qed
  then show ?thesis using True by (simp add: respond_def)
next
  case False
  then show ?thesis by (simp add: respond_def)
qed

lemma inflight_resume: "inflight (resume k outcome s) = inflight s"
proof (cases k)
  case (ToggleCont b oc)
  have "inflight (snd (toggleLike_try b oc outcome s)) = inflight s"
    by (auto simp: toggleLike_try_def Let_def
        split: fetch_outcome.splits body_result.splits option.splits sum.splits)
  moreover have "inflight (snd (toggleLike_catch b s')) = inflight s'" for s'
    by (auto simp: toggleLike_catch_def Let_def split: option.splits)
  ultimately have "inflight (snd (toggleLike_resume b oc outcome s)) = inflight s"
    by (auto simp: toggleLike_resume_def split: prod.splits sum.splits)
  then show ?thesis
    using ToggleCont by (auto simp: resume_def split: prod.splits sum.splits option.splits)
next
  case (LikedPostsCont l b)
  then show ?thesis
    by (auto simp: resume_def liked_posts_resume_def liked_posts_catch_def
        split: fetch_outcome.splits body_result.splits sum.splits option.splits)
next
  case (StatusCont b)
  then show ?thesis
    by (auto simp: resume_def isLiked_resume_def isLiked_try_def
        split: prod.splits sum.splits fetch_outcome.splits body_result.splits)
qed

lemma inflight_respond:
  "inflight (respond i outcome s) =
     (if i < length (inflight s) then take i (inflight s) @ drop (Suc i) (inflight s)
      else inflight s)"
  by (simp add: respond_def inflight_resume)

lemma lock_holds_click:
  assumes "lock_holds b s"
    and "closest is_like_button t (doc s) = None \<or> closest is_like_button t (doc s) = Some b"
  shows "lock_holds b (click t s) \<and> settled (click t s) = settled s"
proof (cases "closest is_like_button t (doc s)")
  case None
  then show ?thesis using assms(1) by (simp add: click_no_button)
next
  case (Some b')
  then have c: "closest is_like_button t (doc s) = Some b" using assms(2) by simp
  show ?thesis
  proof (cases "inflight s = []")
    case False
    then obtain n where "get_elem b (doc s) = Some n" "is_disabled n"
      using assms(1) by (auto simp: lock_holds_def)
    then have "click t s = s" using c by (intro click_locked_noop[of t s b n])
    then show ?thesis using assms(1) by simp
  next
    case empty: True
    show ?thesis
    proof (cases "requests (click t s) = requests s")
      case True
      then show ?thesis using assms(1) empty click_quiet[OF True]
        by (simp add: lock_holds_def settled_def)
    next
      case False
      then show ?thesis using click_sends[OF c False] empty
        by (auto simp: lock_holds_def settled_def)
    qed
  qed
qed

lemma lock_holds_respond:
  assumes "lock_holds b s"
  shows "lock_holds b (respond i outcome s) \<and> settled (respond i outcome s) \<le> Suc (settled s)"
proof (cases "i < length (inflight s)")
  case False
  then show ?thesis using assms by (simp add: respond_def)
next
  case True
  then have one: "length (inflight s) = 1" "i = 0" using assms by (auto simp: lock_holds_def)
  then have "inflight (respond i outcome s) = []" by (simp add: inflight_respond)
  then show ?thesis
    using one by (simp add: lock_holds_def settled_def requests_respond)
qed

lemma lock_along_trace:
  assumes "lock_holds b s" and "only_button b evs s"
  shows "lock_holds b (run evs s) \<and> settled (run evs s) \<le> settled s + responses evs"
  using assms
proof (induction evs arbitrary: s)
  case Nil
  then show ?case by (simp add: run_def)
next
  case (Cons ev evs)
  show ?case
  proof (cases ev)
    case (Click t)
    have h: "lock_holds b (click t s) \<and> settled (click t s) = settled s"
      using Cons.prems Click by (intro lock_holds_click) simp_all
    have "lock_holds b (run evs (click t s)) \<and>
          settled (run evs (click t s)) \<le> settled (click t s) + responses evs"
      using Cons.prems Click h by (intro Cons.IH) simp_all
    then show ?thesis using h Click by (simp add: run_def)
  next
    case (Respond i outcome)
    have h: "lock_holds b (respond i outcome s) \<and> settled (respond i outcome s) \<le> Suc (settled s)"
      using Cons.prems by (intro lock_holds_respond) simp
    have "lock_holds b (run evs (respond i outcome s)) \<and>
          settled (run evs (respond i outcome s)) \<le> settled (respond i outcome s) + responses evs"
      using Cons.prems Respond h by (intro Cons.IH) simp_all
    then show ?thesis using h Respond by (simp add: run_def)
  qed
qed

lemma one_toggle_in_flight:
  assumes "inflight s = []" and "only_button b evs s"
  shows "length (inflight (run evs s)) \<le> 1 \<and>
         length (requests (run evs s)) \<le> length (requests s) + responses evs + 1"
proof -
  have l: "lock_holds b s" using assms(1) by (simp add: lock_holds_def)
  have r: "lock_holds b (run evs s) \<and> settled (run evs s) \<le> settled s + responses evs"
    using l assms(2) by (rule lock_along_trace)
  then have "length (inflight (run evs s)) \<le> 1" by (auto simp: lock_holds_def)
  moreover have "length (requests (run evs s)) = settled (run evs s) + length (inflight (run evs s))"
    using r by (simp add: lock_holds_def settled_def)
  moreover have "settled s = length (requests s)" using assms(1) by (simp add: settled_def)
  ultimately show ?thesis using r by linarith
qed

text \<open>
  C3. For a single button at most one toggle request is in flight. Along every trace of
  clicks on the button and of settled requests, from a page with nothing in flight, at
  most one handler is suspended at any time, and the requests sent are at most the
  settled ones and one more. The lock is the \<^verbatim>\<open>disabled\<close> flag, set before the handler
  suspends: when a click on a like button sends a toggle request, it sends exactly one and
  suspends exactly one handler, the button is disabled, and every further click that
  resolves to the same button, on whatever target inside it and however many times, leaves
  the whole page state as it is. This holds for the listener of \<^verbatim>\<open>likes.js\<close> and for the
  listener of the liked-items page.
\<close>

theorem processing_lock:
  "(inflight s = [] \<and> only_button b evs s \<longrightarrow>
      length (inflight (run evs s)) \<le> 1 \<and>
      length (requests (run evs s)) \<le> length (requests s) + responses evs + 1) \<and>
   (closest is_like_button t (doc s) = Some b \<and> requests (click t s) \<noteq> requests s \<and>
    (\<forall>t' \<in> set ts. closest is_like_button t' (doc (click t s)) = Some b) \<longrightarrow>
      (\<exists>pid. requests (click t s) = requests s @ [toggle_request pid]) \<and>
      (\<exists>k. inflight (click t s) = inflight s @ [k]) \<and>
      (\<exists>n1. get_elem b (doc (click t s)) = Some n1 \<and> is_disabled n1) \<and>
      foldl (\<lambda>s t'. click t' s) (click t s) ts = click t s)"
  using one_toggle_in_flight[of s b evs] clicks_while_locked[of t s b ts] by blast

text \<open>On the demo page: a click on the icon of the button of post 7, then a click on the
  loading markup and one on the button itself, send one request.\<close>

theorem processing_lock_demo:
  "requests (run [Click 11, Click 100, Click 10] (demo_page [demo_meta ''42'', demo_list]))
     = [toggle_request 7] \<and>
   length (inflight (run [Click 11, Click 100, Click 10] (demo_page [demo_meta ''42'', demo_list]))) = 1 \<and>
   click 10 (click 100 (click 11 (demo_page [demo_meta ''42'', demo_list])))
     = click 11 (demo_page [demo_meta ''42'', demo_list])"
proof -
  let ?s = "demo_page [demo_meta ''42'', demo_list]"
  have a: "inflight ?s = []" by code_simp
  have b: "only_button 10 [Click 11, Click 100, Click 10] ?s" by code_simp
  have h1: "closest is_like_button 11 (doc ?s) = Some 10" by code_simp
  have h2: "requests (click 11 ?s) = [toggle_request 7]" by code_simp
  have h2': "requests (click 11 ?s) \<noteq> requests ?s"
    by (simp add: h2) (simp add: demo_page_def)
  have h3: "closest is_like_button 100 (doc (click 11 ?s)) = Some 10" by code_simp
  have h4: "closest is_like_button 10 (doc (click 11 ?s)) = Some 10" by code_simp
  have h5: "\<forall>t' \<in> set [100, 10]. closest is_like_button t' (doc (click 11 ?s)) = Some 10"
    using h3 h4 by simp
  have r: "run [Click 11, Click 100, Click 10] ?s = click 10 (click 100 (click 11 ?s))"
    by (simp add: run_def)
  note p = processing_lock[of ?s 10 "[Click 11, Click 100, Click 10]" 11 "[100, 10]"]
  have c: "click 10 (click 100 (click 11 ?s)) = click 11 ?s"
    using p h1 h2' h5 by simp
  have d: "length (inflight (click 11 ?s)) = 1" by code_simp
  show ?thesis
    using p a b c d h2 by (simp add: r)
qed


end
